theory Spec2Isabelle
  imports Main "HOL-Library.Word"
begin

unbundle bit_operations_syntax

section \<open>Adafruit\_VEML6070.h: constants and types\<close>

text \<open>The three bus addresses of the header, as the integer constants they are.\<close>

definition VEML6070_ADDR_H :: nat where
  "VEML6070_ADDR_H = 0x39"

definition VEML6070_ADDR_L :: nat where
  "VEML6070_ADDR_L = 0x38"

definition VEML6070_ADDR_ARA :: nat where
  "VEML6070_ADDR_ARA = 0x0C"

text \<open>The enumeration of integration times; the enumerators count from 0.\<close>

datatype veml6070_integrationtime_t =
  VEML6070_HALF_T | VEML6070_1_T | VEML6070_2_T | VEML6070_4_T

fun itime_value :: "veml6070_integrationtime_t \<Rightarrow> 8 word" where
  "itime_value VEML6070_HALF_T = 0"
| "itime_value VEML6070_1_T = 1"
| "itime_value VEML6070_2_T = 2"
| "itime_value VEML6070_4_T = 3"

subsection \<open>The command register\<close>

text \<open>
  \<open>commandRegister\<close> is a union of the byte \<open>reg\<close> with a struct of bit-fields. The model
  is the byte; the bit-fields are read and written through masks, allocated from the least
  significant bit upwards in declaration order (the layout of the little-endian targets
  the driver is built for, and the one that matches the device's register map):
  \<open>SD\<close> is bit 0, the unnamed field (read here as \<open>bit_reserved\<close>) bit 1, \<open>IT\<close>
  bits 2 and 3, \<open>ACK_THD\<close> bit 4, \<open>ACK\<close> bit 5. Bits 6 and 7 are padding. A store to a bit-field keeps the low bits of
  the value stored and leaves every other bit of the byte as it was.
\<close>

type_synonym commandRegister = "8 word"

definition bit_SD :: "commandRegister \<Rightarrow> 8 word" where
  "bit_SD r = r AND 1"

definition bit_reserved :: "commandRegister \<Rightarrow> 8 word" where
  "bit_reserved r = drop_bit 1 r AND 1"

definition bit_IT :: "commandRegister \<Rightarrow> 8 word" where
  "bit_IT r = drop_bit 2 r AND 3"

definition bit_ACK_THD :: "commandRegister \<Rightarrow> 8 word" where
  "bit_ACK_THD r = drop_bit 4 r AND 1"

definition bit_ACK :: "commandRegister \<Rightarrow> 8 word" where
  "bit_ACK r = drop_bit 5 r AND 1"

definition set_SD :: "8 word \<Rightarrow> commandRegister \<Rightarrow> commandRegister" where
  "set_SD v r = (r AND NOT 0x01) OR (v AND 1)"

definition set_IT :: "8 word \<Rightarrow> commandRegister \<Rightarrow> commandRegister" where
  "set_IT v r = (r AND NOT 0x0C) OR push_bit 2 (v AND 3)"

definition set_ACK_THD :: "8 word \<Rightarrow> commandRegister \<Rightarrow> commandRegister" where
  "set_ACK_THD v r = (r AND NOT 0x10) OR push_bit 4 (v AND 1)"

definition set_ACK :: "8 word \<Rightarrow> commandRegister \<Rightarrow> commandRegister" where
  "set_ACK v r = (r AND NOT 0x20) OR push_bit 5 (v AND 1)"

text \<open>A C++ \<open>bool\<close> converted to an integer is 0 or 1.\<close>

definition of_cbool :: "bool \<Rightarrow> 8 word" where
  "of_cbool b = (if b then 1 else 0)"

subsection \<open>The host services\<close>

text \<open>
  The bus transport (\<open>api_hal_i2c.h\<close>), the sleep primitive (\<open>api_os.h\<close>) and the logger
  (\<open>api_debug.h\<close>) belong to the host. Every call the driver makes to them is recorded,
  in program order, in a log.
\<close>

datatype I2C_Error_t = I2C_ERROR_NONE | I2C_ERROR nat

datatype I2C_FREQ_t = I2C_FREQ_100K | I2C_FREQ_OTHER nat

record I2C_Config_t =
  freq :: I2C_FREQ_t

datatype call =
    Call_I2C_Init nat I2C_Config_t
  | Call_I2C_Receive nat nat
  | Call_I2C_Transmit nat nat "8 word"
  | Call_OS_Sleep nat
  | Call_Trace nat string I2C_Error_t

text \<open>
  The transport is a parameter of the model: what a receive or a transmit answers may
  depend on everything that happened on the bus before (the log so far), on the bus
  handle and on the address. A receive answers a byte (\<open>Inr\<close>) or fails (\<open>Inl\<close>); a
  transmit succeeds (\<open>Inr ()\<close>) or fails with an error code.

  A failed receive has an error code, and it says what the host did to the caller's
  buffer before it gave up: nothing (\<open>None\<close>), or a byte it stored there (\<open>Some\<close>). The
  header \<open>api_hal_i2c.h\<close> is not part of the sources and nothing fixes the buffer after a
  failure, so both are hosts the driver may run on.
\<close>

datatype failure = Failure (error_code: nat) (stored: "8 word option")

record transport =
  receive :: "call list \<Rightarrow> nat \<Rightarrow> nat \<Rightarrow> failure + 8 word"
  transmit :: "call list \<Rightarrow> nat \<Rightarrow> nat \<Rightarrow> 8 word \<Rightarrow> nat + unit"

text \<open>
  Modelled from the spec: the host's \<open>I2C_Receive\<close> and \<open>I2C_Transmit\<close> (declared in
  \<open>api_hal_i2c.h\<close>, which is not part of the sources), after the interface
  \<open>receive(address, byteCount, timeout) -> Result<bytes, TransportError>\<close> and
  \<open>transmit(address, bytes, timeout) -> Result<(), TransportError>\<close>. The driver always
  asks for one byte with the default timeout. The receive takes the current content of
  the caller's one-byte buffer and returns its content after the call: the byte received
  when the transaction succeeds; when it fails, the byte the host stored, or the buffer
  as it was if the host stored none.
\<close>

definition I2C_Receive ::
  "transport \<Rightarrow> nat \<Rightarrow> nat \<Rightarrow> 8 word \<Rightarrow> call list \<Rightarrow> I2C_Error_t \<times> 8 word \<times> call list" where
  "I2C_Receive t i a buf lg =
     (case receive t lg i a of
        Inr b \<Rightarrow> (I2C_ERROR_NONE, b, lg @ [Call_I2C_Receive i a])
      | Inl f \<Rightarrow>
          (I2C_ERROR (error_code f),
           (case stored f of None \<Rightarrow> buf | Some b \<Rightarrow> b),
           lg @ [Call_I2C_Receive i a]))"

definition I2C_Transmit ::
  "transport \<Rightarrow> nat \<Rightarrow> nat \<Rightarrow> 8 word \<Rightarrow> call list \<Rightarrow> I2C_Error_t \<times> call list" where
  "I2C_Transmit t i a b lg =
     (case transmit t lg i a b of
        Inr u \<Rightarrow> (I2C_ERROR_NONE, lg @ [Call_I2C_Transmit i a b])
      | Inl e \<Rightarrow> (I2C_ERROR e, lg @ [Call_I2C_Transmit i a b]))"

definition I2C_Init :: "nat \<Rightarrow> I2C_Config_t \<Rightarrow> call list \<Rightarrow> call list" where
  "I2C_Init i c lg = lg @ [Call_I2C_Init i c]"

definition OS_Sleep :: "nat \<Rightarrow> call list \<Rightarrow> call list" where
  "OS_Sleep n lg = lg @ [Call_OS_Sleep n]"

definition Trace :: "nat \<Rightarrow> string \<Rightarrow> I2C_Error_t \<Rightarrow> call list \<Rightarrow> call list" where
  "Trace l m e lg = lg @ [Call_Trace l m e]"

section \<open>Adafruit\_VEML6070.cpp\<close>

text \<open>The private members of the class.\<close>

record Adafruit_VEML6070 =
  i2c :: nat
  i2cConfig :: I2C_Config_t
  commandRegister :: commandRegister

text \<open>
  The constructor assigns the command register only; the bus handle and its
  configuration keep whatever the object's storage held, which the model takes as
  arguments.
\<close>

definition Adafruit_VEML6070 :: "nat \<Rightarrow> I2C_Config_t \<Rightarrow> Adafruit_VEML6070" where
  "Adafruit_VEML6070 i0 c0 = \<lparr>i2c = i0, i2cConfig = c0, commandRegister = 0x02\<rparr>"

definition writeCommand :: "transport \<Rightarrow> Adafruit_VEML6070 \<Rightarrow> call list \<Rightarrow> call list" where
  "writeCommand t d lg =
     (case I2C_Transmit t (i2c d) VEML6070_ADDR_L (commandRegister d) lg of
        (error, lg1) \<Rightarrow>
          if error \<noteq> I2C_ERROR_NONE
          then Trace 1 ''Adafruit_VEML6070::writeCommand transmit error: 0X%02x'' error lg1
          else lg1)"

definition clearAck :: "transport \<Rightarrow> Adafruit_VEML6070 \<Rightarrow> call list \<Rightarrow> bool \<times> call list" where
  "clearAck t d lg =
     (case I2C_Receive t (i2c d) VEML6070_ADDR_ARA 0 lg of
        (error, res, lg1) \<Rightarrow>
          (res \<noteq> 0,
           if error \<noteq> I2C_ERROR_NONE
           then Trace 1 ''Adafruit_VEML6070::clearAck recieve error: 0X%02x'' error lg1
           else lg1))"

text \<open>
  \<open>waitForNext\<close>: the first loop doubles \<open>itCount\<close> once per unit of the \<open>IT\<close> field,
  in 8-bit arithmetic; the second sleeps \<open>itCount\<close> times.
\<close>

function itCount_loop :: "8 word \<Rightarrow> 8 word \<Rightarrow> 8 word" where
  "itCount_loop i itCount = (if i > 0 then itCount_loop (i - 1) (itCount * 2) else itCount)"
  by pat_completeness auto
termination
  by (relation "measure (\<lambda>(i, itCount). unat i)") (auto simp: unat_minus_one word_greater_zero_iff unat_gt_0)

function sleep_loop :: "8 word \<Rightarrow> 8 word \<Rightarrow> call list \<Rightarrow> call list" where
  "sleep_loop i itCount lg =
     (if i < itCount then sleep_loop (i + 1) itCount (OS_Sleep 63 lg) else lg)"
  by pat_completeness auto
termination
proof (relation "measure (\<lambda>(i, itCount, lg). unat itCount - unat i)")
  show "wf (measure (\<lambda>(i :: 8 word, itCount :: 8 word, lg :: call list). unat itCount - unat i))"
    by simp
next
  fix i itCount :: "8 word" and lg :: "call list"
  assume "i < itCount"
  then have less: "unat i < unat itCount"
    by (simp add: word_less_nat_alt)
  moreover have "unat itCount < 256"
    using unsigned_less [of itCount, where ?'a = nat] by simp
  ultimately have "unat (i + 1) = unat i + 1"
    by (simp add: unat_word_ariths)
  with less show "((i + 1, itCount, OS_Sleep 63 lg), (i, itCount, lg))
      \<in> measure (\<lambda>(i, itCount, lg). unat itCount - unat i)"
    by simp
qed

definition waitForNext :: "Adafruit_VEML6070 \<Rightarrow> call list \<Rightarrow> call list" where
  "waitForNext d lg = sleep_loop 0 (itCount_loop (bit_IT (commandRegister d)) 1) lg"

text \<open>
  \<open>readUV\<close>: \<open>return -1\<close> converts the \<open>int\<close> \<open>-1\<close> to \<open>uint16_t\<close>; in the last
  \<open>return\<close> both bytes are promoted to \<open>int\<close> (32 bits) before the shift and the OR, and
  the result is converted to \<open>uint16_t\<close>. Both buffers start as 0.
\<close>

definition readUV :: "transport \<Rightarrow> Adafruit_VEML6070 \<Rightarrow> call list \<Rightarrow> 16 word \<times> call list" where
  "readUV t d lg =
     (case I2C_Receive t (i2c d) VEML6070_ADDR_H 0 (waitForNext d lg) of
        (error, highByte, lg1) \<Rightarrow>
          if error \<noteq> I2C_ERROR_NONE
          then (ucast (- 1 :: 32 word),
                Trace 1 ''Adafruit_VEML6070::readUV recieve error: 0X%02x'' error lg1)
          else
            (case I2C_Receive t (i2c d) VEML6070_ADDR_L 0 lg1 of
               (error, lowByte, lg2) \<Rightarrow>
                 if error \<noteq> I2C_ERROR_NONE
                 then (ucast (- 1 :: 32 word),
                       Trace 1 ''Adafruit_VEML6070::readUV recieve error: 0X%02x'' error lg2)
                 else (ucast (push_bit 8 (ucast highByte :: 32 word) OR ucast lowByte), lg2)))"

definition begin' ::
  "transport \<Rightarrow> nat \<Rightarrow> veml6070_integrationtime_t \<Rightarrow> Adafruit_VEML6070 \<Rightarrow> call list
     \<Rightarrow> Adafruit_VEML6070 \<times> call list" where
  "begin' t i2c_id itime d lg =
     (let d1 = d\<lparr>i2c := i2c_id\<rparr>;
          d2 = d1\<lparr>i2cConfig := (i2cConfig d1)\<lparr>freq := I2C_FREQ_100K\<rparr>\<rparr>;
          lg1 = I2C_Init (i2c d2) (i2cConfig d2) lg;
          d3 = d2\<lparr>commandRegister := set_IT (itime_value itime) (commandRegister d2)\<rparr>;
          lg2 = snd (clearAck t d3 lg1)
      in (d3, writeCommand t d3 lg2))"

definition setInterrupt ::
  "transport \<Rightarrow> bool \<Rightarrow> bool \<Rightarrow> Adafruit_VEML6070 \<Rightarrow> call list \<Rightarrow> Adafruit_VEML6070 \<times> call list" where
  "setInterrupt t state level d lg =
     (let d1 = d\<lparr>commandRegister := set_ACK (of_cbool state) (commandRegister d)\<rparr>;
          d2 = d1\<lparr>commandRegister := set_ACK_THD (of_cbool level) (commandRegister d1)\<rparr>;
          lg1 = snd (clearAck t d2 lg)
      in (d2, writeCommand t d2 lg1))"

definition sleep ::
  "transport \<Rightarrow> bool \<Rightarrow> Adafruit_VEML6070 \<Rightarrow> call list \<Rightarrow> Adafruit_VEML6070 \<times> call list" where
  "sleep t state d lg =
     (let d1 = d\<lparr>commandRegister := set_SD (of_cbool state) (commandRegister d)\<rparr>
      in (d1, writeCommand t d1 lg))"

section \<open>Reading the log\<close>

text \<open>The bus transactions of a log: its receives and transmits, in order.\<close>

fun is_transaction :: "call \<Rightarrow> bool" where
  "is_transaction (Call_I2C_Receive i a) = True"
| "is_transaction (Call_I2C_Transmit i a b) = True"
| "is_transaction (Call_I2C_Init i c) = False"
| "is_transaction (Call_OS_Sleep n) = False"
| "is_transaction (Call_Trace l m e) = False"

definition transactions :: "call list \<Rightarrow> call list" where
  "transactions lg = filter is_transaction lg"

text \<open>The command bytes a log sent to the device.\<close>

fun transmitted :: "call list \<Rightarrow> 8 word list" where
  "transmitted [] = []"
| "transmitted (Call_I2C_Transmit i a b # lg) = b # transmitted lg"
| "transmitted (c # lg) = transmitted lg"

text \<open>The bus address a call goes to, for the calls that are bus transactions.\<close>

fun address :: "call \<Rightarrow> nat option" where
  "address (Call_I2C_Receive i a) = Some a"
| "address (Call_I2C_Transmit i a b) = Some a"
| "address (Call_I2C_Init i c) = None"
| "address (Call_OS_Sleep n) = None"
| "address (Call_Trace l m e) = None"

text \<open>
  A client of the class: any sequence of calls of its member functions on one object,
  each with its arguments.
\<close>

datatype member_call =
    M_begin nat veml6070_integrationtime_t
  | M_setInterrupt bool bool
  | M_clearAck
  | M_readUV
  | M_waitForNext
  | M_sleep bool
  | M_writeCommand

fun invoke ::
  "transport \<Rightarrow> member_call \<Rightarrow> Adafruit_VEML6070 \<times> call list \<Rightarrow> Adafruit_VEML6070 \<times> call list" where
  "invoke t (M_begin i itime) (d, lg) = begin' t i itime d lg"
| "invoke t (M_setInterrupt state level) (d, lg) = setInterrupt t state level d lg"
| "invoke t M_clearAck (d, lg) = (d, snd (clearAck t d lg))"
| "invoke t M_readUV (d, lg) = (d, snd (readUV t d lg))"
| "invoke t M_waitForNext (d, lg) = (d, waitForNext d lg)"
| "invoke t (M_sleep state) (d, lg) = sleep t state d lg"
| "invoke t M_writeCommand (d, lg) = (d, writeCommand t d lg)"

fun invoke_all ::
  "transport \<Rightarrow> member_call list \<Rightarrow> Adafruit_VEML6070 \<times> call list \<Rightarrow> Adafruit_VEML6070 \<times> call list" where
  "invoke_all t [] s = s"
| "invoke_all t (m # ms) s = invoke_all t ms (invoke t m s)"

text \<open>
  Transports for concrete runs: one that gives the same answer to every receive, and one
  that answers by address (the high data byte, the low data byte, the alert response);
  both accept every transmit.
\<close>

definition answer_all :: "failure + 8 word \<Rightarrow> transport" where
  "answer_all r = \<lparr>receive = (\<lambda>lg i a. r), transmit = (\<lambda>lg i a b. Inr ())\<rparr>"

definition answer_by_address ::
  "failure + 8 word \<Rightarrow> failure + 8 word \<Rightarrow> failure + 8 word \<Rightarrow> transport" where
  "answer_by_address h l ara =
     \<lparr>receive = (\<lambda>lg i a. if a = VEML6070_ADDR_H then h else if a = VEML6070_ADDR_L then l else ara),
      transmit = (\<lambda>lg i a b. Inr ())\<rparr>"

section \<open>Auxiliary facts\<close>

declare itCount_loop.simps [simp del] sleep_loop.simps [simp del]

subsection \<open>Words\<close>

lemma word8_eqI:
  fixes a b :: "8 word"
  assumes "bit a 0 = bit b 0" "bit a 1 = bit b 1" "bit a 2 = bit b 2" "bit a 3 = bit b 3"
    "bit a 4 = bit b 4" "bit a 5 = bit b 5" "bit a 6 = bit b 6" "bit a 7 = bit b 7"
  shows "a = b"
proof (rule bit_word_eqI)
  fix k :: nat
  assume "k < LENGTH(8)"
  then have "k \<in> {0, 1, 2, 3, 4, 5, 6, 7}"
    by auto
  with assms show "bit a k = bit b k"
    by auto
qed

lemma unat_byte_less: "unat (b :: 8 word) < 256"
  using unsigned_less [of b, where ?'a = nat] by simp

lemma combine_16:
  fixes h l :: "8 word"
  shows "(ucast (push_bit 8 (ucast h :: 32 word) OR ucast l) :: 16 word)
           = push_bit 8 (ucast h) OR ucast l"
  by (rule bit_word_eqI) (auto simp: bit_simps)

lemma combine_unat:
  fixes h l :: "8 word"
  shows "unat (push_bit 8 (ucast h :: 16 word) OR ucast l) = 256 * unat h + unat l"
proof -
  note hb = unat_byte_less [of h] and lb = unat_byte_less [of l]
  have "push_bit 8 (ucast h :: 16 word) AND ucast l = 0"
    by (rule bit_word_eqI) (auto simp: bit_simps dest: bit_imp_le_length)
  then have "push_bit 8 (ucast h :: 16 word) OR ucast l = push_bit 8 (ucast h) + ucast l"
    by (simp add: disjunctive_add_eq_or)
  moreover have "unat (ucast h :: 16 word) = unat h"
    using hb by (simp add: unsigned_ucast_eq take_bit_nat_eq_self_iff)
  moreover have "unat (ucast l :: 16 word) = unat l"
    using lb by (simp add: unsigned_ucast_eq take_bit_nat_eq_self_iff)
  ultimately show ?thesis
    using hb lb by (simp add: push_bit_eq_mult unat_word_ariths)
qed

lemma minus_one_16: "(ucast (- 1 :: 32 word) :: 16 word) = 0xFFFF"
  by code_simp

lemma unat_pow: "k \<le> 3 \<Longrightarrow> unat (2 ^ k :: 8 word) = 2 ^ k"
proof -
  assume "k \<le> 3"
  then have "k = 0 \<or> k = 1 \<or> k = 2 \<or> k = 3" by arith
  then show ?thesis by auto
qed

subsection \<open>The two loops of \<open>waitForNext\<close>\<close>

lemma itCount_loop_eq: "itCount_loop i c = c * 2 ^ unat i"
proof (induction i c rule: itCount_loop.induct)
  case (1 i itCount)
  show ?case
  proof (cases "i > 0")
    case True
    then have pos: "0 < unat i"
      by (simp add: word_greater_zero_iff unat_gt_0)
    then have "unat (i - 1) = unat i - 1"
      using True by (simp add: unat_minus_one word_greater_zero_iff)
    with pos have "(2 :: 8 word) * 2 ^ unat (i - 1) = 2 ^ unat i"
      by (metis power_minus_mult mult.commute)
    with 1 True show ?thesis
      by (simp add: itCount_loop.simps [of i] mult.assoc)
  next
    case False
    then have "i = 0" by (simp add: word_greater_zero_iff)
    then show ?thesis by (simp add: itCount_loop.simps [of 0])
  qed
qed

lemma sleep_loop_eq:
  "sleep_loop i n lg = lg @ replicate (unat n - unat i) (Call_OS_Sleep 63)"
proof (induction i n lg rule: sleep_loop.induct)
  case (1 i itCount lg)
  show ?case
  proof (cases "i < itCount")
    case True
    then have less: "unat i < unat itCount"
      by (simp add: word_less_nat_alt)
    with unat_byte_less [of itCount] have suc: "unat (i + 1) = unat i + 1"
      by (simp add: unat_word_ariths)
    from less obtain k where k: "unat itCount - unat i = Suc k"
      by (metis Suc_diff_Suc)
    with suc have "unat itCount - unat (i + 1) = k" by simp
    with 1 True k show ?thesis
      by (simp add: sleep_loop.simps [of i] OS_Sleep_def replicate_append_same)
  next
    case False
    then have "unat itCount - unat i = 0" by (simp add: word_less_nat_alt)
    with False show ?thesis by (simp add: sleep_loop.simps [of i])
  qed
qed

lemma bit_IT_le: "unat (bit_IT r) \<le> 3"
proof -
  have "bit_IT r \<le> 3" unfolding bit_IT_def by (rule word_and_le1)
  then show ?thesis by (simp add: word_le_nat_alt)
qed

lemma waitForNext_eq:
  "waitForNext d lg = lg @ replicate (2 ^ unat (bit_IT (commandRegister d))) (Call_OS_Sleep 63)"
  by (simp add: waitForNext_def itCount_loop_eq sleep_loop_eq unat_pow bit_IT_le)

subsection \<open>The transport\<close>

lemma I2C_Receive_Inr:
  "receive t lg i a = Inr b \<Longrightarrow>
     I2C_Receive t i a buf lg = (I2C_ERROR_NONE, b, lg @ [Call_I2C_Receive i a])"
  by (simp add: I2C_Receive_def)

lemma I2C_Receive_Inl:
  "receive t lg i a = Inl f \<Longrightarrow>
     I2C_Receive t i a buf lg =
       (I2C_ERROR (error_code f), (case stored f of None \<Rightarrow> buf | Some b \<Rightarrow> b),
        lg @ [Call_I2C_Receive i a])"
  by (simp add: I2C_Receive_def)

lemma combine_eq_sentinel:
  fixes h l :: "8 word"
  shows "(push_bit 8 (ucast h) OR ucast l = (0xFFFF :: 16 word)) \<longleftrightarrow> h = 0xFF \<and> l = 0xFF"
proof
  assume "push_bit 8 (ucast h) OR ucast l = (0xFFFF :: 16 word)"
  then have "unat (push_bit 8 (ucast h :: 16 word) OR ucast l) = unat (0xFFFF :: 16 word)"
    by simp
  then have "256 * unat h + unat l = 65535"
    by (simp add: combine_unat)
  with unat_byte_less [of h] unat_byte_less [of l] have "unat h = 255 \<and> unat l = 255"
    by arith
  then have "unat h = unat (0xFF :: 8 word) \<and> unat l = unat (0xFF :: 8 word)"
    by simp
  then show "h = 0xFF \<and> l = 0xFF"
    by (simp only: word_unat_eq_iff)
next
  assume "h = 0xFF \<and> l = 0xFF"
  then show "push_bit 8 (ucast h) OR ucast l = (0xFFFF :: 16 word)"
    by simp
qed

subsection \<open>Stores to the bit-fields\<close>

lemma bit_IT_set_IT: "bit_IT (set_IT v r) = v AND 3"
  unfolding bit_IT_def set_IT_def by (rule word8_eqI) (simp_all add: bit_simps)

lemma bit_SD_set_IT: "bit_SD (set_IT v r) = bit_SD r"
  unfolding bit_SD_def set_IT_def by (rule word8_eqI) (simp_all add: bit_simps)

lemma bit_ACK_set_ACK: "bit_ACK (set_ACK v r) = v AND 1"
  unfolding bit_ACK_def set_ACK_def by (rule word8_eqI) (simp_all add: bit_simps)

lemma bit_ACK_set_ACK_THD: "bit_ACK (set_ACK_THD v r) = bit_ACK r"
  unfolding bit_ACK_def set_ACK_THD_def by (rule word8_eqI) (simp_all add: bit_simps)

lemma bit_ACK_THD_set_ACK_THD: "bit_ACK_THD (set_ACK_THD v r) = v AND 1"
  unfolding bit_ACK_THD_def set_ACK_THD_def by (rule word8_eqI) (simp_all add: bit_simps)

lemma itime_value_mask: "itime_value itime AND 3 = itime_value itime"
  by (cases itime) simp_all

lemma reserved_set_SD: "bit_reserved (set_SD v r) = bit_reserved r"
  unfolding bit_reserved_def set_SD_def by (rule word8_eqI) (simp_all add: bit_simps)

lemma reserved_set_IT: "bit_reserved (set_IT v r) = bit_reserved r"
  unfolding bit_reserved_def set_IT_def by (rule word8_eqI) (simp_all add: bit_simps)

lemma reserved_set_ACK_THD: "bit_reserved (set_ACK_THD v r) = bit_reserved r"
  unfolding bit_reserved_def set_ACK_THD_def by (rule word8_eqI) (simp_all add: bit_simps)

lemma reserved_set_ACK: "bit_reserved (set_ACK v r) = bit_reserved r"
  unfolding bit_reserved_def set_ACK_def by (rule word8_eqI) (simp_all add: bit_simps)

subsection \<open>What each member function adds to the log\<close>

lemma writeCommand_eq:
  "writeCommand t d lg =
     lg @ Call_I2C_Transmit (i2c d) VEML6070_ADDR_L (commandRegister d)
        # (case transmit t lg (i2c d) VEML6070_ADDR_L (commandRegister d) of
             Inr u \<Rightarrow> []
           | Inl e \<Rightarrow> [Call_Trace 1 ''Adafruit_VEML6070::writeCommand transmit error: 0X%02x''
                          (I2C_ERROR e)])"
  by (simp add: writeCommand_def I2C_Transmit_def Trace_def split: sum.splits)

lemma clearAck_log:
  "snd (clearAck t d lg) =
     lg @ Call_I2C_Receive (i2c d) VEML6070_ADDR_ARA
        # (case receive t lg (i2c d) VEML6070_ADDR_ARA of
             Inr b \<Rightarrow> []
           | Inl f \<Rightarrow> [Call_Trace 1 ''Adafruit_VEML6070::clearAck recieve error: 0X%02x''
                          (I2C_ERROR (error_code f))])"
  by (simp add: clearAck_def I2C_Receive_def Trace_def split: sum.splits)

lemma readUV_log:
  "snd (readUV t d lg) =
     waitForNext d lg @ Call_I2C_Receive (i2c d) VEML6070_ADDR_H
       # (case receive t (waitForNext d lg) (i2c d) VEML6070_ADDR_H of
            Inl f \<Rightarrow> [Call_Trace 1 ''Adafruit_VEML6070::readUV recieve error: 0X%02x''
                         (I2C_ERROR (error_code f))]
          | Inr h \<Rightarrow>
              Call_I2C_Receive (i2c d) VEML6070_ADDR_L
                # (case receive t (waitForNext d lg @ [Call_I2C_Receive (i2c d) VEML6070_ADDR_H])
                          (i2c d) VEML6070_ADDR_L of
                     Inl f \<Rightarrow> [Call_Trace 1 ''Adafruit_VEML6070::readUV recieve error: 0X%02x''
                                  (I2C_ERROR (error_code f))]
                   | Inr l \<Rightarrow> []))"
  by (simp add: readUV_def I2C_Receive_def Trace_def split: sum.splits)

lemma transactions_append: "transactions (xs @ ys) = transactions xs @ transactions ys"
  by (simp add: transactions_def)

lemma transactions_sleeps: "transactions (replicate n (Call_OS_Sleep k)) = []"
  by (simp add: transactions_def)

lemma transactions_writeCommand:
  "transactions (writeCommand t d lg) =
     transactions lg @ [Call_I2C_Transmit (i2c d) VEML6070_ADDR_L (commandRegister d)]"
  by (simp add: writeCommand_eq transactions_def split: sum.splits)

lemma transactions_clearAck:
  "transactions (snd (clearAck t d lg)) =
     transactions lg @ [Call_I2C_Receive (i2c d) VEML6070_ADDR_ARA]"
  by (simp add: clearAck_log transactions_def split: sum.splits)

lemma transactions_waitForNext: "transactions (waitForNext d lg) = transactions lg"
  by (simp add: waitForNext_eq transactions_append transactions_sleeps)

lemma transactions_readUV:
  "transactions (snd (readUV t d lg)) =
     transactions lg @
       (if isl (receive t (waitForNext d lg) (i2c d) VEML6070_ADDR_H)
        then [Call_I2C_Receive (i2c d) VEML6070_ADDR_H]
        else [Call_I2C_Receive (i2c d) VEML6070_ADDR_H, Call_I2C_Receive (i2c d) VEML6070_ADDR_L])"
proof -
  have "transactions (snd (readUV t d lg)) = transactions (waitForNext d lg) @
       (if isl (receive t (waitForNext d lg) (i2c d) VEML6070_ADDR_H)
        then [Call_I2C_Receive (i2c d) VEML6070_ADDR_H]
        else [Call_I2C_Receive (i2c d) VEML6070_ADDR_H, Call_I2C_Receive (i2c d) VEML6070_ADDR_L])"
    by (simp add: readUV_log transactions_def split: sum.splits)
  then show ?thesis by (simp only: transactions_waitForNext)
qed

subsection \<open>The command bytes sent, and the reserved bit\<close>

lemma transmitted_append: "transmitted (xs @ ys) = transmitted xs @ transmitted ys"
  by (induction xs rule: transmitted.induct) simp_all

lemma transmitted_sleeps: "transmitted (replicate n (Call_OS_Sleep k)) = []"
  by (induction n) simp_all

lemma transmitted_writeCommand:
  "transmitted (writeCommand t d lg) = transmitted lg @ [commandRegister d]"
  by (simp add: writeCommand_eq transmitted_append split: sum.splits)

lemma transmitted_clearAck: "transmitted (snd (clearAck t d lg)) = transmitted lg"
  by (simp add: clearAck_log transmitted_append split: sum.splits)

lemma transmitted_waitForNext: "transmitted (waitForNext d lg) = transmitted lg"
  by (simp add: waitForNext_eq transmitted_append transmitted_sleeps)

lemma transmitted_readUV: "transmitted (snd (readUV t d lg)) = transmitted lg"
proof -
  have "transmitted (snd (readUV t d lg)) = transmitted (waitForNext d lg)"
    by (simp add: readUV_log transmitted_append split: sum.splits)
  then show ?thesis by (simp only: transmitted_waitForNext)
qed

lemma invoke_reserved:
  "bit_reserved (commandRegister (fst (invoke t m (d, lg)))) = bit_reserved (commandRegister d)"
  by (cases m)
     (simp_all add: begin'_def setInterrupt_def sleep_def Let_def
        reserved_set_IT reserved_set_ACK reserved_set_ACK_THD reserved_set_SD)

lemma invoke_transmitted:
  "set (transmitted (snd (invoke t m (d, lg))))
     \<subseteq> insert (commandRegister (fst (invoke t m (d, lg)))) (set (transmitted lg))"
proof (cases m)
  case (M_begin i itime)
  then show ?thesis
    by (simp add: begin'_def Let_def transmitted_writeCommand transmitted_clearAck I2C_Init_def
        transmitted_append)
next
  case (M_setInterrupt state level)
  then show ?thesis
    by (simp add: setInterrupt_def Let_def transmitted_writeCommand transmitted_clearAck)
next
  case M_clearAck
  then show ?thesis by (auto simp: transmitted_clearAck)
next
  case M_readUV
  then show ?thesis by (auto simp: transmitted_readUV)
next
  case M_waitForNext
  then show ?thesis by (auto simp: transmitted_waitForNext)
next
  case (M_sleep state)
  then show ?thesis
    by (simp add: sleep_def Let_def transmitted_writeCommand)
next
  case M_writeCommand
  then show ?thesis by (simp add: transmitted_writeCommand)
qed

lemma invoke_all_reserved:
  assumes "bit_reserved (commandRegister (fst s)) = 1"
    and "\<forall>b \<in> set (transmitted (snd s)). bit_reserved b = 1"
  shows "bit_reserved (commandRegister (fst (invoke_all t ms s))) = 1
       \<and> (\<forall>b \<in> set (transmitted (snd (invoke_all t ms s))). bit_reserved b = 1)"
  using assms
proof (induction ms arbitrary: s)
  case Nil
  then show ?case by simp
next
  case (Cons m ms)
  obtain d lg where s: "s = (d, lg)" by (cases s)
  from Cons.prems s have reg: "bit_reserved (commandRegister (fst (invoke t m s))) = 1"
    by (simp add: invoke_reserved)
  have "\<forall>b \<in> set (transmitted (snd (invoke t m s))). bit_reserved b = 1"
  proof
    fix b assume "b \<in> set (transmitted (snd (invoke t m s)))"
    with invoke_transmitted [of t m d lg] s
    have "b = commandRegister (fst (invoke t m s)) \<or> b \<in> set (transmitted lg)"
      by auto
    with reg Cons.prems s show "bit_reserved b = 1" by auto
  qed
  with reg show ?case
    using Cons.IH [of "invoke t m s"] by simp
qed

section \<open>The measurement\<close>

text \<open>
  Claim C1. When the receive at the high address answers the byte \<open>high\<close> and the receive
  at the low address, issued next, answers the byte \<open>low\<close>, \<open>readUV\<close> returns the 16-bit
  value \<open>(high << 8) | low\<close>, that is \<open>256 * high + low\<close>, and what it adds to the log is
  the sleeps of the integration wait, then the receive of the high byte, then the receive
  of the low byte, and nothing else.
\<close>

theorem readUV_success:
  assumes high: "receive t (waitForNext d lg) (i2c d) VEML6070_ADDR_H = Inr high"
    and low: "receive t (waitForNext d lg @ [Call_I2C_Receive (i2c d) VEML6070_ADDR_H]) (i2c d)
                VEML6070_ADDR_L = Inr low"
  shows "readUV t d lg =
           (push_bit 8 (ucast high) OR ucast low,
            lg @ replicate (2 ^ unat (bit_IT (commandRegister d))) (Call_OS_Sleep 63)
               @ [Call_I2C_Receive (i2c d) VEML6070_ADDR_H,
                  Call_I2C_Receive (i2c d) VEML6070_ADDR_L])
         \<and> unat (fst (readUV t d lg)) = 256 * unat high + unat low"
proof -
  have "readUV t d lg =
          (push_bit 8 (ucast high) OR ucast low,
           waitForNext d lg @ [Call_I2C_Receive (i2c d) VEML6070_ADDR_H,
                               Call_I2C_Receive (i2c d) VEML6070_ADDR_L])"
    by (simp add: readUV_def I2C_Receive_Inr [OF high] I2C_Receive_Inr [OF low] combine_16)
  then show ?thesis
    by (simp add: waitForNext_eq combine_unat)
qed

text \<open>
  The example of the specification: a freshly constructed driver on a device that answers
  0x01 at the high address and 0x02 at the low one reads 0x0102, after one sleep.
\<close>

theorem readUV_success_witness:
  "receive (answer_by_address (Inr 0x01) (Inr 0x02) (Inr 0))
     (waitForNext (Adafruit_VEML6070 0 \<lparr>freq = I2C_FREQ_100K\<rparr>) [])
     (i2c (Adafruit_VEML6070 0 \<lparr>freq = I2C_FREQ_100K\<rparr>)) VEML6070_ADDR_H = Inr 0x01
   \<and> receive (answer_by_address (Inr 0x01) (Inr 0x02) (Inr 0))
     (waitForNext (Adafruit_VEML6070 0 \<lparr>freq = I2C_FREQ_100K\<rparr>) []
        @ [Call_I2C_Receive (i2c (Adafruit_VEML6070 0 \<lparr>freq = I2C_FREQ_100K\<rparr>)) VEML6070_ADDR_H])
     (i2c (Adafruit_VEML6070 0 \<lparr>freq = I2C_FREQ_100K\<rparr>)) VEML6070_ADDR_L = Inr 0x02
   \<and> readUV (answer_by_address (Inr 0x01) (Inr 0x02) (Inr 0))
        (Adafruit_VEML6070 0 \<lparr>freq = I2C_FREQ_100K\<rparr>) []
      = (0x0102, [Call_OS_Sleep 63, Call_I2C_Receive 0 0x39, Call_I2C_Receive 0 0x38])"
proof -
  let ?t = "answer_by_address (Inr 0x01) (Inr 0x02) (Inr 0)"
  let ?d = "Adafruit_VEML6070 0 \<lparr>freq = I2C_FREQ_100K\<rparr>"
  have h: "receive ?t (waitForNext ?d []) (i2c ?d) VEML6070_ADDR_H = Inr 0x01"
    by (simp add: answer_by_address_def)
  have l: "receive ?t (waitForNext ?d [] @ [Call_I2C_Receive (i2c ?d) VEML6070_ADDR_H]) (i2c ?d)
             VEML6070_ADDR_L = Inr 0x02"
    by (simp add: answer_by_address_def VEML6070_ADDR_H_def VEML6070_ADDR_L_def)
  show ?thesis
    using h l readUV_success [OF h l]
    by (simp add: Adafruit_VEML6070_def bit_IT_def VEML6070_ADDR_H_def VEML6070_ADDR_L_def)
qed

text \<open>
  Claim C2. When the receive of the high byte fails, or the receive of the low byte
  fails, \<open>readUV\<close> returns the one value 0xFFFF (\<open>-1\<close> as \<open>uint16_t\<close>), whatever byte the
  other receive delivered.
\<close>

theorem readUV_failure:
  assumes "isl (receive t (waitForNext d lg) (i2c d) VEML6070_ADDR_H)
         \<or> isl (receive t (waitForNext d lg @ [Call_I2C_Receive (i2c d) VEML6070_ADDR_H]) (i2c d)
                  VEML6070_ADDR_L)"
  shows "fst (readUV t d lg) = 0xFFFF"
proof (cases "receive t (waitForNext d lg) (i2c d) VEML6070_ADDR_H")
  case (Inl f)
  then show ?thesis
    by (simp add: readUV_def I2C_Receive_Inl [OF Inl] minus_one_16)
next
  case (Inr high)
  with assms obtain f where low:
    "receive t (waitForNext d lg @ [Call_I2C_Receive (i2c d) VEML6070_ADDR_H]) (i2c d)
       VEML6070_ADDR_L = Inl f"
    by (auto simp: isl_def)
  show ?thesis
    by (simp add: readUV_def I2C_Receive_Inr [OF Inr] I2C_Receive_Inl [OF low] minus_one_16)
qed

text \<open>
  A device that answers 0x12 at the high address and fails at the low one, after the
  host has stored 0x34 in the buffer.
\<close>

theorem readUV_failure_witness:
  "(isl (receive (answer_by_address (Inr 0x12) (Inl (Failure 3 (Some 0x34))) (Inr 0))
           (waitForNext (Adafruit_VEML6070 0 \<lparr>freq = I2C_FREQ_100K\<rparr>) [])
           (i2c (Adafruit_VEML6070 0 \<lparr>freq = I2C_FREQ_100K\<rparr>)) VEML6070_ADDR_H)
    \<or> isl (receive (answer_by_address (Inr 0x12) (Inl (Failure 3 (Some 0x34))) (Inr 0))
           (waitForNext (Adafruit_VEML6070 0 \<lparr>freq = I2C_FREQ_100K\<rparr>) []
              @ [Call_I2C_Receive (i2c (Adafruit_VEML6070 0 \<lparr>freq = I2C_FREQ_100K\<rparr>)) VEML6070_ADDR_H])
           (i2c (Adafruit_VEML6070 0 \<lparr>freq = I2C_FREQ_100K\<rparr>)) VEML6070_ADDR_L))
   \<and> fst (readUV (answer_by_address (Inr 0x12) (Inl (Failure 3 (Some 0x34))) (Inr 0))
             (Adafruit_VEML6070 0 \<lparr>freq = I2C_FREQ_100K\<rparr>) []) = 0xFFFF"
proof -
  let ?t = "answer_by_address (Inr 0x12) (Inl (Failure 3 (Some 0x34))) (Inr 0)"
  let ?d = "Adafruit_VEML6070 0 \<lparr>freq = I2C_FREQ_100K\<rparr>"
  have h: "isl (receive ?t (waitForNext ?d []) (i2c ?d) VEML6070_ADDR_H)
         \<or> isl (receive ?t (waitForNext ?d [] @ [Call_I2C_Receive (i2c ?d) VEML6070_ADDR_H]) (i2c ?d)
                  VEML6070_ADDR_L)"
    by (simp add: answer_by_address_def VEML6070_ADDR_H_def VEML6070_ADDR_L_def)
  show ?thesis
    using h readUV_failure [OF h] by simp
qed

text \<open>
  Claim C3, as stated, fails: a device that answers 0xFF at both data addresses makes
  \<open>readUV\<close> return 0xFFFF with both receives successful (the log holds no error trace),
  and that is the value it returns when a receive fails.
\<close>

theorem sentinel_counterexample:
  "readUV (answer_all (Inr 0xFF)) (Adafruit_VEML6070 0 \<lparr>freq = I2C_FREQ_100K\<rparr>) []
     = (0xFFFF, [Call_OS_Sleep 63, Call_I2C_Receive 0 VEML6070_ADDR_H,
                 Call_I2C_Receive 0 VEML6070_ADDR_L])
   \<and> fst (readUV (answer_all (Inl (Failure 1 None))) (Adafruit_VEML6070 0 \<lparr>freq = I2C_FREQ_100K\<rparr>) []) = 0xFFFF"
  by (simp add: readUV_def I2C_Receive_def answer_all_def minus_one_16 waitForNext_eq
      Adafruit_VEML6070_def bit_IT_def OS_Sleep_def Trace_def)

text \<open>
  Claim C3, amended. The value returned on a failed receive is 0xFFFF; when both receives
  succeed, \<open>readUV\<close> returns that value exactly when both bytes are 0xFF, so the sentinel
  differs from every successful reading but that one.
\<close>

theorem sentinel_only_collision:
  assumes high: "receive t (waitForNext d lg) (i2c d) VEML6070_ADDR_H = Inr high"
    and low: "receive t (waitForNext d lg @ [Call_I2C_Receive (i2c d) VEML6070_ADDR_H]) (i2c d)
                VEML6070_ADDR_L = Inr low"
  shows "(fst (readUV t d lg) = 0xFFFF) = (high = 0xFF \<and> low = 0xFF)"
proof -
  have "fst (readUV t d lg) = push_bit 8 (ucast high) OR ucast low"
    by (simp add: readUV_def I2C_Receive_Inr [OF high] I2C_Receive_Inr [OF low] combine_16)
  then show ?thesis
    by (simp only: combine_eq_sentinel)
qed

text \<open>A reading of 0xFF and 0xFE is not the sentinel.\<close>

theorem sentinel_only_collision_witness:
  "receive (answer_by_address (Inr 0xFF) (Inr 0xFE) (Inr 0))
     (waitForNext (Adafruit_VEML6070 0 \<lparr>freq = I2C_FREQ_100K\<rparr>) [])
     (i2c (Adafruit_VEML6070 0 \<lparr>freq = I2C_FREQ_100K\<rparr>)) VEML6070_ADDR_H = Inr 0xFF
   \<and> receive (answer_by_address (Inr 0xFF) (Inr 0xFE) (Inr 0))
     (waitForNext (Adafruit_VEML6070 0 \<lparr>freq = I2C_FREQ_100K\<rparr>) []
        @ [Call_I2C_Receive (i2c (Adafruit_VEML6070 0 \<lparr>freq = I2C_FREQ_100K\<rparr>)) VEML6070_ADDR_H])
     (i2c (Adafruit_VEML6070 0 \<lparr>freq = I2C_FREQ_100K\<rparr>)) VEML6070_ADDR_L = Inr 0xFE
   \<and> fst (readUV (answer_by_address (Inr 0xFF) (Inr 0xFE) (Inr 0))
             (Adafruit_VEML6070 0 \<lparr>freq = I2C_FREQ_100K\<rparr>) []) \<noteq> 0xFFFF"
proof -
  let ?t = "answer_by_address (Inr 0xFF) (Inr 0xFE) (Inr 0)"
  let ?d = "Adafruit_VEML6070 0 \<lparr>freq = I2C_FREQ_100K\<rparr>"
  have h: "receive ?t (waitForNext ?d []) (i2c ?d) VEML6070_ADDR_H = Inr 0xFF"
    by (simp add: answer_by_address_def)
  have l: "receive ?t (waitForNext ?d [] @ [Call_I2C_Receive (i2c ?d) VEML6070_ADDR_H]) (i2c ?d)
             VEML6070_ADDR_L = Inr 0xFE"
    by (simp add: answer_by_address_def VEML6070_ADDR_H_def VEML6070_ADDR_L_def)
  show ?thesis
    using h l sentinel_only_collision [OF h l] by simp
qed

text \<open>
  Claim C4. With the \<open>IT\<close> field holding the code of the integration time Half, One, Two
  or Four, \<open>waitForNext\<close> calls the sleep primitive exactly 1, 2, 4 or 8 times, each time
  with the duration 63, and calls nothing else.
\<close>

theorem waitForNext_sleep_count:
  assumes "bit_IT (commandRegister d) = itime_value itime"
  shows "waitForNext d lg =
           lg @ replicate (case itime of VEML6070_HALF_T \<Rightarrow> 1 | VEML6070_1_T \<Rightarrow> 2
                           | VEML6070_2_T \<Rightarrow> 4 | VEML6070_4_T \<Rightarrow> 8) (Call_OS_Sleep 63)"
  using assms by (cases itime) (simp_all add: waitForNext_eq)

text \<open>The command byte 0x0E has \<open>IT = 3\<close>: eight sleeps.\<close>

theorem waitForNext_sleep_count_witness:
  "bit_IT (commandRegister \<lparr>i2c = 0, i2cConfig = \<lparr>freq = I2C_FREQ_100K\<rparr>, commandRegister = 0x0E\<rparr>)
     = itime_value VEML6070_4_T
   \<and> waitForNext \<lparr>i2c = 0, i2cConfig = \<lparr>freq = I2C_FREQ_100K\<rparr>, commandRegister = 0x0E\<rparr> []
     = replicate 8 (Call_OS_Sleep 63)"
proof -
  have h: "bit_IT (commandRegister \<lparr>i2c = 0, i2cConfig = \<lparr>freq = I2C_FREQ_100K\<rparr>,
                                     commandRegister = 0x0E\<rparr>)
             = itime_value VEML6070_4_T"
    by (simp add: bit_IT_def)
  show ?thesis
    using h waitForNext_sleep_count [OF h, of "[]"] by simp
qed

section \<open>The command register after construction\<close>

text \<open>
  Claim C5, as stated, fails: the constructor stores 0x02, so bit 1 of the command
  register is 1, not 0, and the \<open>IT\<close> field is 0, the code of \<open>VEML6070_HALF_T\<close>, not the
  code of \<open>VEML6070_1_T\<close>.
\<close>

theorem constructor_counterexample:
  "bit_reserved (commandRegister (Adafruit_VEML6070 0 \<lparr>freq = I2C_FREQ_100K\<rparr>)) = 1
   \<and> bit_IT (commandRegister (Adafruit_VEML6070 0 \<lparr>freq = I2C_FREQ_100K\<rparr>))
       \<noteq> itime_value VEML6070_1_T"
  by (simp add: Adafruit_VEML6070_def bit_IT_def bit_reserved_def)

text \<open>
  Claim C5, amended. Immediately after construction the command register is the byte
  0x02: \<open>SD = 0\<close>, \<open>IT = 0\<close> (the code of \<open>VEML6070_HALF_T\<close>), \<open>ACK_THD = 0\<close>, \<open>ACK = 0\<close>, and
  the reserved bit 1 is 1.
\<close>

theorem constructor_register:
  "commandRegister (Adafruit_VEML6070 i0 c0) = 0x02
   \<and> bit_SD (commandRegister (Adafruit_VEML6070 i0 c0)) = 0
   \<and> bit_IT (commandRegister (Adafruit_VEML6070 i0 c0)) = itime_value VEML6070_HALF_T
   \<and> bit_ACK_THD (commandRegister (Adafruit_VEML6070 i0 c0)) = 0
   \<and> bit_ACK (commandRegister (Adafruit_VEML6070 i0 c0)) = 0
   \<and> bit_reserved (commandRegister (Adafruit_VEML6070 i0 c0)) = 1"
  by (simp add: Adafruit_VEML6070_def bit_SD_def bit_IT_def bit_ACK_THD_def bit_ACK_def
      bit_reserved_def)

section \<open>The alert response\<close>

text \<open>
  What \<open>clearAck\<close> returns is its buffer \<open>res\<close> after the receive, converted to \<open>bool\<close>;
  the error code goes to the trace only. So it returns true exactly when a successful
  receive delivers a non-zero byte, false when the byte is zero, false when the receive
  fails and the host leaves the buffer (initially 0) alone, and, when the receive fails
  after the host stored a byte, whether that byte is non-zero.
\<close>

lemma clearAck_returns_buffer:
  "fst (clearAck t d lg) =
     (case receive t lg (i2c d) VEML6070_ADDR_ARA of
        Inr res \<Rightarrow> res \<noteq> 0
      | Inl f \<Rightarrow> (case stored f of None \<Rightarrow> False | Some res \<Rightarrow> res \<noteq> 0))"
  by (simp add: clearAck_def I2C_Receive_def split: sum.splits option.splits)


section \<open>The bus addresses\<close>

text \<open>
  Claim C6, as stated, fails: \<open>writeCommand\<close> transmits to 0x38, the address from which
  \<open>readUV\<close> receives the low data byte, so the addresses in use are not four distinct
  ones.
\<close>

theorem address_counterexample:
  "map address (writeCommand (answer_all (Inr 7)) (Adafruit_VEML6070 0 \<lparr>freq = I2C_FREQ_100K\<rparr>) [])
     = [Some 0x38]
   \<and> map address (snd (readUV (answer_all (Inr 7)) (Adafruit_VEML6070 0 \<lparr>freq = I2C_FREQ_100K\<rparr>) []))
     = [None, Some 0x39, Some 0x38]
   \<and> address (last (writeCommand (answer_all (Inr 7)) (Adafruit_VEML6070 0 \<lparr>freq = I2C_FREQ_100K\<rparr>) []))
     = address (last (snd (readUV (answer_all (Inr 7)) (Adafruit_VEML6070 0 \<lparr>freq = I2C_FREQ_100K\<rparr>) [])))"
  by (simp add: writeCommand_eq readUV_log waitForNext_eq answer_all_def Adafruit_VEML6070_def
      bit_IT_def VEML6070_ADDR_H_def VEML6070_ADDR_L_def)

text \<open>
  Claim C6, amended. The driver uses three pairwise distinct bus addresses: it receives
  the high data byte from \<open>VEML6070_ADDR_H\<close>, the low data byte from \<open>VEML6070_ADDR_L\<close>
  and the alert response from \<open>VEML6070_ADDR_ARA\<close>; \<open>writeCommand\<close> transmits the
  command byte to \<open>VEML6070_ADDR_L\<close>, the address of the low data byte.
\<close>

theorem three_addresses:
  "distinct [VEML6070_ADDR_H, VEML6070_ADDR_L, VEML6070_ADDR_ARA]
   \<and> map address (transactions (writeCommand t d lg))
       = map address (transactions lg) @ [Some VEML6070_ADDR_L]
   \<and> map address (transactions (snd (clearAck t d lg)))
       = map address (transactions lg) @ [Some VEML6070_ADDR_ARA]
   \<and> map address (transactions (snd (readUV t d lg)))
       = map address (transactions lg) @
           (if isl (receive t (waitForNext d lg) (i2c d) VEML6070_ADDR_H)
            then [Some VEML6070_ADDR_H]
            else [Some VEML6070_ADDR_H, Some VEML6070_ADDR_L])"
proof -
  have "distinct [VEML6070_ADDR_H, VEML6070_ADDR_L, VEML6070_ADDR_ARA]"
    by (simp add: VEML6070_ADDR_H_def VEML6070_ADDR_L_def VEML6070_ADDR_ARA_def)
  then show ?thesis
    by (simp add: transactions_writeCommand transactions_clearAck transactions_readUV)
qed

section \<open>Configuration\<close>

text \<open>
  Claim C8. For every integration time requested, \<open>begin\<close> on a freshly constructed
  driver performs exactly two bus transactions, one receive at the alert response address
  and then one transmit of the command byte, and the command byte in memory afterwards
  has \<open>IT\<close> equal to the code of the requested time and \<open>SD = 0\<close>: it is 0x02 with
  the code in bits 2 and 3.
\<close>

theorem begin_sequence:
  "transactions (snd (begin' t i itime (Adafruit_VEML6070 i0 c0) lg))
     = transactions lg @
         [Call_I2C_Receive i VEML6070_ADDR_ARA,
          Call_I2C_Transmit i VEML6070_ADDR_L
            (commandRegister (fst (begin' t i itime (Adafruit_VEML6070 i0 c0) lg)))]
   \<and> bit_IT (commandRegister (fst (begin' t i itime (Adafruit_VEML6070 i0 c0) lg))) = itime_value itime
   \<and> bit_SD (commandRegister (fst (begin' t i itime (Adafruit_VEML6070 i0 c0) lg))) = 0
   \<and> commandRegister (fst (begin' t i itime (Adafruit_VEML6070 i0 c0) lg))
       = 0x02 OR push_bit 2 (itime_value itime)"
proof -
  let ?d = "(Adafruit_VEML6070 i0 c0)\<lparr>i2c := i, i2cConfig := c0\<lparr>freq := I2C_FREQ_100K\<rparr>,
              commandRegister := set_IT (itime_value itime) 0x02\<rparr>"
  have run: "begin' t i itime (Adafruit_VEML6070 i0 c0) lg =
          (?d, writeCommand t ?d (snd (clearAck t ?d (I2C_Init i (c0\<lparr>freq := I2C_FREQ_100K\<rparr>) lg))))"
    by (simp add: begin'_def Adafruit_VEML6070_def Let_def)
  have "transactions (I2C_Init i (c0\<lparr>freq := I2C_FREQ_100K\<rparr>) lg) = transactions lg"
    by (simp add: I2C_Init_def transactions_def)
  then have "transactions (snd (begin' t i itime (Adafruit_VEML6070 i0 c0) lg))
     = transactions lg @ [Call_I2C_Receive i VEML6070_ADDR_ARA,
          Call_I2C_Transmit i VEML6070_ADDR_L (commandRegister ?d)]"
    by (simp add: run transactions_writeCommand transactions_clearAck)
  moreover have "bit_IT (commandRegister ?d) = itime_value itime"
    by (simp add: bit_IT_set_IT itime_value_mask)
  moreover have "bit_SD (commandRegister ?d) = 0"
  proof -
    have "bit_SD (commandRegister ?d) = bit_SD 0x02"
      by (simp add: bit_SD_set_IT)
    then show ?thesis
      by (simp add: bit_SD_def)
  qed
  moreover have "commandRegister ?d = 0x02 OR push_bit 2 (itime_value itime)"
    by (cases itime) (simp_all add: set_IT_def)
  ultimately show ?thesis
    by (simp add: run)
qed


text \<open>
  Claim C9. \<open>setInterrupt(true, true)\<close> sets \<open>ACK\<close> and \<open>ACK_THD\<close> to 1; followed by
  \<open>setInterrupt(false, false)\<close> it leaves the command byte with \<open>ACK = 0\<close> and
  \<open>ACK_THD = 0\<close>, and the bus transactions of the
  two calls are a receive at the alert response address, the transmit of the first
  command byte, a second receive at the alert response address and the transmit of the
  final command byte.
\<close>

theorem setInterrupt_on_then_off:
  "bit_ACK (commandRegister (fst (setInterrupt t True True d lg))) = 1
   \<and> bit_ACK_THD (commandRegister (fst (setInterrupt t True True d lg))) = 1
   \<and> bit_ACK (commandRegister (fst (setInterrupt t False False
       (fst (setInterrupt t True True d lg)) (snd (setInterrupt t True True d lg))))) = 0
   \<and> bit_ACK_THD (commandRegister (fst (setInterrupt t False False
       (fst (setInterrupt t True True d lg)) (snd (setInterrupt t True True d lg))))) = 0
   \<and> transactions (snd (setInterrupt t False False
       (fst (setInterrupt t True True d lg)) (snd (setInterrupt t True True d lg))))
     = transactions lg @
         [Call_I2C_Receive (i2c d) VEML6070_ADDR_ARA,
          Call_I2C_Transmit (i2c d) VEML6070_ADDR_L
            (commandRegister (fst (setInterrupt t True True d lg))),
          Call_I2C_Receive (i2c d) VEML6070_ADDR_ARA,
          Call_I2C_Transmit (i2c d) VEML6070_ADDR_L
            (commandRegister (fst (setInterrupt t False False
               (fst (setInterrupt t True True d lg)) (snd (setInterrupt t True True d lg)))))]"
proof -
  have fst_eq: "fst (setInterrupt t state level d' lg') =
      d'\<lparr>commandRegister := set_ACK_THD (of_cbool level) (set_ACK (of_cbool state) (commandRegister d'))\<rparr>"
    for state level d' lg'
    by (simp add: setInterrupt_def Let_def)
  have snd_eq: "transactions (snd (setInterrupt t state level d' lg')) =
      transactions lg' @ [Call_I2C_Receive (i2c d') VEML6070_ADDR_ARA,
        Call_I2C_Transmit (i2c d') VEML6070_ADDR_L
          (commandRegister (fst (setInterrupt t state level d' lg')))]"
    for state level d' lg'
    by (simp add: setInterrupt_def Let_def transactions_writeCommand transactions_clearAck)
  have handle: "i2c (fst (setInterrupt t state level d' lg')) = i2c d'" for state level d' lg'
    by (simp add: fst_eq)
  have ack: "bit_ACK (commandRegister (fst (setInterrupt t False False d' lg'))) = 0" for d' lg'
    by (simp add: fst_eq bit_ACK_set_ACK_THD bit_ACK_set_ACK of_cbool_def)
  have thd: "bit_ACK_THD (commandRegister (fst (setInterrupt t False False d' lg'))) = 0" for d' lg'
    by (simp add: fst_eq bit_ACK_THD_set_ACK_THD of_cbool_def)
  have on: "bit_ACK (commandRegister (fst (setInterrupt t True True d lg))) = 1
      \<and> bit_ACK_THD (commandRegister (fst (setInterrupt t True True d lg))) = 1"
    by (simp add: fst_eq bit_ACK_set_ACK_THD bit_ACK_set_ACK bit_ACK_THD_set_ACK_THD of_cbool_def)
  show ?thesis
    by (simp add: on ack thd snd_eq handle)
qed

section \<open>The reserved bit\<close>

text \<open>
  Claim C10. The constructor sets the reserved bit (bit 1) of the command register to 1;
  every member function (\<open>begin\<close>, \<open>setInterrupt\<close>, \<open>clearAck\<close>, \<open>readUV\<close>,
  \<open>waitForNext\<close>, \<open>sleep\<close>, \<open>writeCommand\<close>) leaves that bit as it was; so after any
  sequence of calls on a constructed driver the bit is still 1, and every command byte
  transmitted to the device has bit 1 set.
\<close>

theorem reserved_bit_set:
  "bit_reserved (commandRegister (Adafruit_VEML6070 i0 c0)) = 1
   \<and> bit_reserved (commandRegister (fst (invoke t m (d, lg)))) = bit_reserved (commandRegister d)
   \<and> bit_reserved (commandRegister (fst (invoke_all t ms (Adafruit_VEML6070 i0 c0, [])))) = 1
   \<and> (\<forall>b \<in> set (transmitted (snd (invoke_all t ms (Adafruit_VEML6070 i0 c0, [])))).
         bit_reserved b = 1)"
proof -
  have start: "bit_reserved (commandRegister (Adafruit_VEML6070 i0 c0)) = 1"
    by (simp add: Adafruit_VEML6070_def bit_reserved_def)
  with invoke_all_reserved [of "(Adafruit_VEML6070 i0 c0, [])" t ms] show ?thesis
    by (simp add: invoke_reserved)
qed

text \<open>
  A run: \<open>begin\<close> with \<open>VEML6070_2_T\<close>, \<open>setInterrupt(true, false)\<close>, a reading, and
  \<open>sleep(true)\<close> send the bytes 0x0A, 0x2A and 0x2B.
\<close>

theorem reserved_bit_set_witness:
  "transmitted (snd (invoke_all (answer_all (Inr 1))
      [M_begin 1 VEML6070_2_T, M_setInterrupt True False, M_readUV, M_sleep True]
      (Adafruit_VEML6070 0 \<lparr>freq = I2C_FREQ_100K\<rparr>, []))) = [0x0A, 0x2A, 0x2B]
   \<and> bit_reserved 0x0A = 1 \<and> bit_reserved 0x2A = 1 \<and> bit_reserved 0x2B = 1"
proof -
  let ?run = "invoke_all (answer_all (Inr 1))
      [M_begin 1 VEML6070_2_T, M_setInterrupt True False, M_readUV, M_sleep True]
      (Adafruit_VEML6070 0 \<lparr>freq = I2C_FREQ_100K\<rparr>, [])"
  have sent: "transmitted (snd ?run) = [0x0A, 0x2A, 0x2B]"
    by (simp add: begin'_def setInterrupt_def sleep_def Let_def transmitted_writeCommand
        transmitted_clearAck transmitted_readUV I2C_Init_def transmitted_append
        Adafruit_VEML6070_def set_IT_def set_ACK_def set_ACK_THD_def set_SD_def of_cbool_def)
  from reserved_bit_set [of 0 "\<lparr>freq = I2C_FREQ_100K\<rparr>" "answer_all (Inr 1)" M_clearAck
      "Adafruit_VEML6070 0 \<lparr>freq = I2C_FREQ_100K\<rparr>" "[]"
      "[M_begin 1 VEML6070_2_T, M_setInterrupt True False, M_readUV, M_sleep True]"]
  have "\<forall>b \<in> set (transmitted (snd ?run)). bit_reserved b = 1"
    by simp
  with sent show ?thesis by simp
qed

end
